theory Spec2Isabelle
  imports Main
begin

section \<open>The document: elements, class lists, selectors\<close>

text \<open>
  The navigation script works on the live document only. An element carries what the
  script reads and writes: its \<open>id\<close> attribute, its class list and its
  \<open>aria-controls\<close> attribute. The document is the list of its elements in
  document order; a node (an object reference of the script, compared with \<open>!=\<close>)
  is the position of an element in that list. The script never creates or removes an
  element, so positions are stable.
\<close>

type_synonym node = nat

record element =
  elem_id :: "string option"
  classList :: "string list"
  aria_controls :: "string option"

type_synonym document = "element list"

datatype js_error = TypeError | SyntaxError

text \<open>
  Every write of the script to a class list, in program order. A handler returns the
  document it leaves behind, the writes it made and the exception that ended it, if
  any: an exception does not undo the writes made before it.
\<close>

datatype mutation = Removed node string | Toggled node string

record outcome =
  dom :: document
  trace :: "mutation list"
  thrown :: "js_error option"

subsection \<open>Class tokens of the script\<close>

definition nav_open_token :: string where
  "nav_open_token = ''site-nav__items--open''"

definition hamburger_open_token :: string where
  "hamburger_open_token = ''hamburger--open''"

definition items_open_token :: string where
  "items_open_token = ''dropdown__items--open''"

definition expand_open_token :: string where
  "expand_open_token = ''dropdown__expand--open''"

subsection \<open>classList.contains, classList.remove, classList.toggle\<close>

definition classList_contains :: "document \<Rightarrow> node \<Rightarrow> string \<Rightarrow> bool" where
  "classList_contains doc n t = (n < length doc \<and> t \<in> set (classList (doc ! n)))"

definition classList_remove :: "node \<Rightarrow> string \<Rightarrow> document \<Rightarrow> document" where
  "classList_remove n t doc =
     doc[n := (doc ! n)\<lparr>classList := removeAll t (classList (doc ! n))\<rparr>]"

definition token_toggle :: "string \<Rightarrow> string list \<Rightarrow> string list" where
  "token_toggle t cs = (if t \<in> set cs then removeAll t cs else cs @ [t])"

definition classList_toggle :: "node \<Rightarrow> string \<Rightarrow> document \<Rightarrow> document" where
  "classList_toggle n t doc =
     doc[n := (doc ! n)\<lparr>classList := token_toggle t (classList (doc ! n))\<rparr>]"

subsection \<open>document.querySelectorAll and document.querySelector\<close>

text \<open>
  \<open>querySelectorAll(".c")\<close>: the elements bearing class \<open>c\<close>, in document order,
  as a static list.
\<close>

definition querySelectorAll_class :: "document \<Rightarrow> string \<Rightarrow> node list" where
  "querySelectorAll_class doc c =
     filter (\<lambda>n. c \<in> set (classList (doc ! n))) [0..<length doc]"

text \<open>
  \<open>querySelector("#" + i)\<close>. The script builds two of its selectors from an attribute
  value. The model covers values that are one identifier of letters, digits, \<open>-\<close> and
  \<open>_\<close> which does not start with a digit (nor with \<open>-\<close> and a digit): the result
  is the first element of the document with that id, or null (\<open>None\<close>). Any other text
  ends the handler with \<open>SyntaxError\<close>, as the selector parser does for text that is
  no selector; text that the parser would accept as a longer selector or as an
  identifier with escapes or characters beyond ASCII is not modelled further.
\<close>

definition name_start_char :: "char \<Rightarrow> bool" where
  "name_start_char c =
     (c \<in> set ''abcdefghijklmnopqrstuvwxyzABCDEFGHIJKLMNOPQRSTUVWXYZ_'')"

definition name_char :: "char \<Rightarrow> bool" where
  "name_char c = (name_start_char c \<or> c \<in> set ''0123456789-'')"

fun css_ident :: "string \<Rightarrow> bool" where
  "css_ident [] = False"
| "css_ident [c] = name_start_char c"
| "css_ident (c # d # cs) =
     ((name_start_char c \<or> (c = CHR ''-'' \<and> (name_start_char d \<or> d = CHR ''-'')))
      \<and> list_all name_char (d # cs))"

definition querySelector_id :: "document \<Rightarrow> string \<Rightarrow> js_error + node option" where
  "querySelector_id doc i =
     (if css_ident i
      then Inr (find (\<lambda>n. elem_id (doc ! n) = Some i) [0..<length doc])
      else Inl SyntaxError)"

subsection \<open>Strings of the script\<close>

text \<open>
  \<open>s.replace(pat, rep)\<close> with a string pattern: the first occurrence of \<open>pat\<close> in
  \<open>s\<close> is replaced, later ones stay; without an occurrence the string is returned as
  it is. (The replacement \<open>expand\<close> of the script has no \<open>$\<close> pattern.)
\<close>

fun replace_first :: "string \<Rightarrow> string \<Rightarrow> string \<Rightarrow> string" where
  "replace_first pat rep [] = (if pat = [] then rep else [])"
| "replace_first pat rep (c # cs) =
     (if take (length pat) (c # cs) = pat then rep @ drop (length pat) (c # cs)
      else c # replace_first pat rep cs)"

text \<open>
  The template literal \<open>`#${controls}`\<close> without its \<open>#\<close>: \<open>getAttribute\<close> returns
  null for a missing attribute, and null is interpolated as the text \<open>null\<close>.
\<close>

definition template_id :: "string option \<Rightarrow> string" where
  "template_id controls = (case controls of None \<Rightarrow> ''null'' | Some c \<Rightarrow> c)"

section \<open>The hamburger toggle\<close>

text \<open>
  \<open>initialiseHamburger\<close> looks the button up and binds the listener to it; with no
  such element \<open>addEventListener\<close> is called on null and throws. The result is the
  node the listener is bound to, which the listener keeps.
\<close>

definition initialiseHamburger :: "document \<Rightarrow> js_error + node" where
  "initialiseHamburger doc =
     (case querySelector_id doc ''hamburger-button'' of
        Inl e \<Rightarrow> Inl e
      | Inr None \<Rightarrow> Inl TypeError
      | Inr (Some hamburgerButton) \<Rightarrow> Inr hamburgerButton)"

text \<open>The click listener: the panel is looked up on each click.\<close>

definition hamburger_click :: "node \<Rightarrow> document \<Rightarrow> outcome" where
  "hamburger_click hamburgerButton doc =
     (case querySelector_id doc ''site-nav-items'' of
        Inl e \<Rightarrow> \<lparr>dom = doc, trace = [], thrown = Some e\<rparr>
      | Inr None \<Rightarrow> \<lparr>dom = doc, trace = [], thrown = Some TypeError\<rparr>
      | Inr (Some siteNavItems) \<Rightarrow>
          \<lparr>dom = classList_toggle hamburgerButton hamburger_open_token
                   (classList_toggle siteNavItems nav_open_token doc),
           trace = [Toggled siteNavItems nav_open_token,
                    Toggled hamburgerButton hamburger_open_token],
           thrown = None\<rparr>)"

primrec hamburger_clicks :: "node \<Rightarrow> nat \<Rightarrow> document \<Rightarrow> document" where
  "hamburger_clicks b 0 doc = doc"
| "hamburger_clicks b (Suc k) doc = hamburger_clicks b k (dom (hamburger_click b doc))"

text \<open>The two observable states of the hamburger region.\<close>

definition nav_open :: "document \<Rightarrow> bool" where
  "nav_open doc =
     (case querySelector_id doc ''site-nav-items'' of
        Inr (Some n) \<Rightarrow> classList_contains doc n nav_open_token
      | _ \<Rightarrow> False)"

definition hamburger_icon_open :: "node \<Rightarrow> document \<Rightarrow> bool" where
  "hamburger_icon_open hamburgerButton doc =
     classList_contains doc hamburgerButton hamburger_open_token"

section \<open>The dropdown group\<close>

record dropdown_group =
  dropdownButtons :: "node list"
  allDropdownItems :: "node list"
  dropdownIcons :: "node list"

definition initialiseDropdown :: "document \<Rightarrow> dropdown_group" where
  "initialiseDropdown doc =
     \<lparr>dropdownButtons = querySelectorAll_class doc ''dropdown__button'',
      allDropdownItems = querySelectorAll_class doc ''dropdown__items'',
      dropdownIcons = querySelectorAll_class doc ''dropdown__expand''\<rparr>"

text \<open>
  The two \<open>forEach\<close> loops of the listener: every node of the list that is not the
  target (a node is never equal to null) and bears the token loses it.
\<close>

fun close_others ::
  "string \<Rightarrow> node option \<Rightarrow> node list \<Rightarrow> document \<times> mutation list
     \<Rightarrow> document \<times> mutation list" where
  "close_others t target [] s = s"
| "close_others t target (n # ns) (doc, tr) =
     close_others t target ns
       (if Some n \<noteq> target \<and> classList_contains doc n t
        then (classList_remove n t doc, tr @ [Removed n t])
        else (doc, tr))"

text \<open>
  The click listener of one trigger button, statement by statement. The target panel
  is flipped before the icon is looked up; a null panel or icon throws where its
  class list is read, that is after the loop in front of it has run. The listener is
  bound to nodes of the document only, so \<open>dropdownButton\<close> is one of them.
\<close>

definition dropdown_click :: "dropdown_group \<Rightarrow> node \<Rightarrow> document \<Rightarrow> outcome" where
  "dropdown_click g dropdownButton doc =
     (let controls = aria_controls (doc ! dropdownButton) in
      case querySelector_id doc (template_id controls) of
        Inl e \<Rightarrow> \<lparr>dom = doc, trace = [], thrown = Some e\<rparr>
      | Inr dropdownItems \<Rightarrow>
          (case close_others items_open_token dropdownItems (allDropdownItems g) (doc, []) of
             (d1, t1) \<Rightarrow>
               (case dropdownItems of
                  None \<Rightarrow> \<lparr>dom = d1, trace = t1, thrown = Some TypeError\<rparr>
                | Some p \<Rightarrow>
                    (let d2 = classList_toggle p items_open_token d1;
                         t2 = t1 @ [Toggled p items_open_token] in
                     case controls of
                       None \<Rightarrow> \<lparr>dom = d2, trace = t2, thrown = Some TypeError\<rparr>
                     | Some c \<Rightarrow>
                         (case querySelector_id d2 (replace_first ''items'' ''expand'' c) of
                            Inl e \<Rightarrow> \<lparr>dom = d2, trace = t2, thrown = Some e\<rparr>
                          | Inr dropdownIcon \<Rightarrow>
                              (case close_others expand_open_token dropdownIcon
                                      (dropdownIcons g) (d2, t2) of
                                 (d3, t3) \<Rightarrow>
                                   (case dropdownIcon of
                                      None \<Rightarrow>
                                        \<lparr>dom = d3, trace = t3, thrown = Some TypeError\<rparr>
                                    | Some i \<Rightarrow>
                                        \<lparr>dom = classList_toggle i expand_open_token d3,
                                         trace = t3 @ [Toggled i expand_open_token],
                                         thrown = None\<rparr>)))))))"

text \<open>
  A click on a node runs the listener bound to it; the group binds one to each of its
  trigger buttons and to nothing else. Later clicks run on the document the earlier
  ones left, whether or not they threw. The document is modelled without its tree:
  a click runs the listener of the clicked trigger only, that is, no trigger lies
  inside another trigger or inside the hamburger button.
\<close>

definition click_trigger :: "dropdown_group \<Rightarrow> node \<Rightarrow> document \<Rightarrow> outcome" where
  "click_trigger g b doc =
     (if b \<in> set (dropdownButtons g) then dropdown_click g b doc
      else \<lparr>dom = doc, trace = [], thrown = None\<rparr>)"

fun trigger_clicks :: "dropdown_group \<Rightarrow> node list \<Rightarrow> document \<Rightarrow> document" where
  "trigger_clicks g [] doc = doc"
| "trigger_clicks g (b # bs) doc = trigger_clicks g bs (dom (click_trigger g b doc))"

text \<open>The observable states of the group, and what a trigger resolves to.\<close>

definition panel_open :: "document \<Rightarrow> node \<Rightarrow> bool" where
  "panel_open doc p = classList_contains doc p items_open_token"

definition icon_open :: "document \<Rightarrow> node \<Rightarrow> bool" where
  "icon_open doc i = classList_contains doc i expand_open_token"

definition open_panels :: "dropdown_group \<Rightarrow> document \<Rightarrow> node list" where
  "open_panels g doc = filter (panel_open doc) (allDropdownItems g)"

definition open_icons :: "dropdown_group \<Rightarrow> document \<Rightarrow> node list" where
  "open_icons g doc = filter (icon_open doc) (dropdownIcons g)"

definition mutual_exclusion :: "dropdown_group \<Rightarrow> document \<Rightarrow> bool" where
  "mutual_exclusion g doc = (length (open_panels g doc) \<le> 1)"

definition panel_of :: "document \<Rightarrow> node \<Rightarrow> node option" where
  "panel_of doc b =
     (case aria_controls (doc ! b) of
        None \<Rightarrow> None
      | Some c \<Rightarrow> (case querySelector_id doc c of Inr r \<Rightarrow> r | Inl e \<Rightarrow> None))"

definition icon_of :: "document \<Rightarrow> node \<Rightarrow> node option" where
  "icon_of doc b =
     (case aria_controls (doc ! b) of
        None \<Rightarrow> None
      | Some c \<Rightarrow>
          (case querySelector_id doc (replace_first ''items'' ''expand'' c) of
             Inr r \<Rightarrow> r
           | Inl e \<Rightarrow> None))"

text \<open>
  Two documents with the same elements up to their class lists: what every listener
  of the script preserves (a predicate of the proofs, not of the script).
\<close>

definition same_structure :: "document \<Rightarrow> document \<Rightarrow> bool" where
  "same_structure doc doc' =
     (length doc' = length doc \<and>
      (\<forall>m. elem_id (doc' ! m) = elem_id (doc ! m) \<and>
           aria_controls (doc' ! m) = aria_controls (doc ! m)))"

text \<open>
  The markup contract of the group, for the whole group: every trigger names an
  existing panel of the group, its icon id (the panel id after the replacement)
  names an existing icon of the group, and different triggers have different panels
  and different icons.
\<close>

definition resolves_in :: "node list \<Rightarrow> node option \<Rightarrow> bool" where
  "resolves_in ns r = (case r of None \<Rightarrow> False | Some n \<Rightarrow> n \<in> set ns)"

definition dom_contract :: "dropdown_group \<Rightarrow> document \<Rightarrow> bool" where
  "dom_contract g doc =
     (list_all (\<lambda>b. resolves_in (allDropdownItems g) (panel_of doc b)
                   \<and> resolves_in (dropdownIcons g) (icon_of doc b))
        (dropdownButtons g)
      \<and> distinct (map (panel_of doc) (dropdownButtons g))
      \<and> distinct (map (icon_of doc) (dropdownButtons g)))"

section \<open>The specification's wording, for comparison\<close>

text \<open>
  The per-click algorithm in the order the specification lists its steps, for a
  resolved panel \<open>p\<close> and icon \<open>i\<close>: step 2 closes every other open panel,
  step 3 closes every other open icon, step 4 flips \<open>p\<close>, step 5 flips \<open>i\<close>.
\<close>

definition ordered_steps :: "dropdown_group \<Rightarrow> node \<Rightarrow> node \<Rightarrow> document \<Rightarrow> outcome" where
  "ordered_steps g p i doc =
     (case close_others items_open_token (Some p) (allDropdownItems g) (doc, []) of
        (d2, t2) \<Rightarrow>
          (case close_others expand_open_token (Some i) (dropdownIcons g) (d2, t2) of
             (d3, t3) \<Rightarrow>
               \<lparr>dom = classList_toggle i expand_open_token
                        (classList_toggle p items_open_token d3),
                trace = t3 @ [Toggled p items_open_token, Toggled i expand_open_token],
                thrown = None\<rparr>))"

text \<open>
  The naming convention of the markup: the icon's id is the panel's id with the
  substring \<open>items\<close> replaced by \<open>expand\<close>, at some occurrence of it.
\<close>

definition naming_convention :: "string \<Rightarrow> string \<Rightarrow> bool" where
  "naming_convention panel_id icon_id =
     list_ex (\<lambda>k. take 5 (drop k panel_id) = ''items''
                  \<and> icon_id = take k panel_id @ ''expand'' @ drop (k + 5) panel_id)
       [0..<Suc (length panel_id)]"

text \<open>An element with the given id is present in the document.\<close>

definition present :: "document \<Rightarrow> string \<Rightarrow> bool" where
  "present doc i = list_ex (\<lambda>e. elem_id e = Some i) doc"

section \<open>Example pages\<close>

definition el :: "string option \<Rightarrow> string list \<Rightarrow> string option \<Rightarrow> element" where
  "el i cs a = \<lparr>elem_id = i, classList = cs, aria_controls = a\<rparr>"

text \<open>
  The header of the site with a group of three items A, B and C, everything closed:
  node 0 is the hamburger button, node 1 the navigation panel, and each item is a
  trigger button, its expand icon and its panel (nodes 2 to 4, 5 to 7 and 8 to 10).
\<close>

definition page_abc :: document where
  "page_abc =
     [el (Some ''hamburger-button'') [''hamburger''] None,
      el (Some ''site-nav-items'') [''site-nav__items''] None,
      el None [''dropdown__button''] (Some ''a-items''),
      el (Some ''a-expand'') [''dropdown__expand''] None,
      el (Some ''a-items'') [''dropdown__items''] None,
      el None [''dropdown__button''] (Some ''b-items''),
      el (Some ''b-expand'') [''dropdown__expand''] None,
      el (Some ''b-items'') [''dropdown__items''] None,
      el None [''dropdown__button''] (Some ''c-items''),
      el (Some ''c-expand'') [''dropdown__expand''] None,
      el (Some ''c-items'') [''dropdown__items''] None]"

text \<open>A page with the hamburger button and no navigation panel.\<close>

definition page_no_panel :: document where
  "page_no_panel = [el (Some ''hamburger-button'') [''hamburger''] None]"

definition group_abc :: dropdown_group where
  "group_abc = initialiseDropdown page_abc"

text \<open>The three-item page with item A open (panel and icon), as one click on A leaves it.\<close>

definition page_a_open :: document where
  "page_a_open =
     [el (Some ''hamburger-button'') [''hamburger''] None,
      el (Some ''site-nav-items'') [''site-nav__items''] None,
      el None [''dropdown__button''] (Some ''a-items''),
      el (Some ''a-expand'') [''dropdown__expand'', ''dropdown__expand--open''] None,
      el (Some ''a-items'') [''dropdown__items'', ''dropdown__items--open''] None,
      el None [''dropdown__button''] (Some ''b-items''),
      el (Some ''b-expand'') [''dropdown__expand''] None,
      el (Some ''b-items'') [''dropdown__items''] None,
      el None [''dropdown__button''] (Some ''c-items''),
      el (Some ''c-expand'') [''dropdown__expand''] None,
      el (Some ''c-items'') [''dropdown__items''] None]"

section \<open>Class lists and selectors\<close>


lemma tokens_distinct:
  "items_open_token \<noteq> expand_open_token" "expand_open_token \<noteq> items_open_token"
  "nav_open_token \<noteq> items_open_token" "nav_open_token \<noteq> expand_open_token"
  "hamburger_open_token \<noteq> items_open_token" "hamburger_open_token \<noteq> expand_open_token"
  "items_open_token \<noteq> nav_open_token" "expand_open_token \<noteq> nav_open_token"
  "items_open_token \<noteq> hamburger_open_token" "expand_open_token \<noteq> hamburger_open_token"
  "nav_open_token \<noteq> hamburger_open_token" "hamburger_open_token \<noteq> nav_open_token"
  by (simp_all add: items_open_token_def expand_open_token_def nav_open_token_def
      hamburger_open_token_def)

lemma length_classList_remove [simp]: "length (classList_remove n t doc) = length doc"
  by (simp add: classList_remove_def)

lemma length_classList_toggle [simp]: "length (classList_toggle n t doc) = length doc"
  by (simp add: classList_toggle_def)

lemma nth_update_field:
  assumes "\<And>x. f (g x) = f x"
  shows "f (xs[n := g (xs ! n)] ! m) = f (xs ! m)"
proof (cases "n < length xs")
  case True
  then show ?thesis using assms by (cases "m = n") simp_all
next
  case False
  then have "xs[n := g (xs ! n)] = xs" by (simp add: list_update_beyond)
  then show ?thesis by simp
qed

lemma elem_id_classList_remove [simp]:
  "elem_id (classList_remove n t doc ! m) = elem_id (doc ! m)"
  unfolding classList_remove_def
  by (rule nth_update_field [where g = "\<lambda>e. e\<lparr>classList := removeAll t (classList e)\<rparr>"]) simp

lemma elem_id_classList_toggle [simp]:
  "elem_id (classList_toggle n t doc ! m) = elem_id (doc ! m)"
  unfolding classList_toggle_def
  by (rule nth_update_field [where g = "\<lambda>e. e\<lparr>classList := token_toggle t (classList e)\<rparr>"]) simp

lemma aria_controls_classList_remove [simp]:
  "aria_controls (classList_remove n t doc ! m) = aria_controls (doc ! m)"
  unfolding classList_remove_def
  by (rule nth_update_field [where g = "\<lambda>e. e\<lparr>classList := removeAll t (classList e)\<rparr>"]) simp

lemma aria_controls_classList_toggle [simp]:
  "aria_controls (classList_toggle n t doc ! m) = aria_controls (doc ! m)"
  unfolding classList_toggle_def
  by (rule nth_update_field [where g = "\<lambda>e. e\<lparr>classList := token_toggle t (classList e)\<rparr>"]) simp

lemma contains_classList_remove:
  "classList_contains (classList_remove n t doc) m t' =
     (classList_contains doc m t' \<and> \<not> (m = n \<and> t' = t))"
proof (cases "n < length doc")
  case True
  then show ?thesis
    by (cases "m = n") (auto simp: classList_contains_def classList_remove_def)
next
  case False
  then show ?thesis
    by (auto simp: classList_contains_def classList_remove_def list_update_beyond)
qed

lemma contains_classList_toggle:
  "classList_contains (classList_toggle n t doc) m t' =
     (if m = n \<and> t' = t \<and> n < length doc then \<not> classList_contains doc m t'
      else classList_contains doc m t')"
proof (cases "n < length doc")
  case True
  then show ?thesis
    by (cases "m = n")
      (auto simp: classList_contains_def classList_toggle_def token_toggle_def)
next
  case False
  then show ?thesis
    by (auto simp: classList_contains_def classList_toggle_def list_update_beyond)
qed

lemma querySelector_id_same:
  "same_structure doc doc' \<Longrightarrow> querySelector_id doc' i = querySelector_id doc i"
  by (simp add: querySelector_id_def same_structure_def)

lemma same_structure_refl [simp]: "same_structure doc doc"
  by (simp add: same_structure_def)

lemma same_structure_trans:
  "same_structure a b \<Longrightarrow> same_structure b c \<Longrightarrow> same_structure a c"
  by (simp add: same_structure_def)

lemma same_structure_remove [simp]: "same_structure doc (classList_remove n t doc)"
  by (simp add: same_structure_def)

lemma same_structure_toggle [simp]: "same_structure doc (classList_toggle n t doc)"
  by (simp add: same_structure_def)

lemma close_others_structure:
  "same_structure doc (fst (close_others t tg ns (doc, tr)))"
proof (induction ns arbitrary: doc tr)
  case Nil
  show ?case by simp
next
  case (Cons n ns)
  show ?case
    using Cons.IH [of "classList_remove n t doc"] Cons.IH [of doc]
    by (auto intro: same_structure_trans [OF same_structure_remove])
qed

lemma close_others_contains:
  "classList_contains (fst (close_others t tg ns (doc, tr))) m t' =
     (classList_contains doc m t' \<and> \<not> (t' = t \<and> m \<in> set ns \<and> Some m \<noteq> tg))"
proof (induction ns arbitrary: doc tr)
  case Nil
  show ?case by simp
next
  case (Cons n ns)
  show ?case
    by (auto simp: Cons.IH contains_classList_remove)
qed

lemma close_others_trace:
  "distinct ns \<Longrightarrow>
   snd (close_others t tg ns (doc, tr)) =
     tr @ map (\<lambda>n. Removed n t) (filter (\<lambda>n. Some n \<noteq> tg \<and> classList_contains doc n t) ns)"
proof (induction ns arbitrary: doc tr)
  case Nil
  show ?case by simp
next
  case (Cons n ns)
  have keep: "filter (\<lambda>k. Some k \<noteq> tg \<and> classList_contains (classList_remove n t doc) k t) ns =
              filter (\<lambda>k. Some k \<noteq> tg \<and> classList_contains doc k t) ns"
    using Cons.prems by (auto simp: contains_classList_remove intro!: filter_cong)
  show ?case
    using Cons.prems by (simp add: Cons.IH keep)
qed


lemma close_others_structureD:
  "close_others t tg ns (doc, tr) = (d', tr') \<Longrightarrow> same_structure doc d'"
  using close_others_structure [of doc t tg ns tr] by simp

lemma querySelector_id_bound:
  "querySelector_id doc i = Inr (Some n) \<Longrightarrow> n < length doc \<and> elem_id (doc ! n) = Some i"
  by (auto simp: querySelector_id_def find_Some_iff split: if_splits)

lemma dropdown_click_structure: "same_structure doc (dom (dropdown_click g b doc))"
  unfolding dropdown_click_def Let_def
  by (auto split: sum.splits prod.splits option.splits
      dest!: close_others_structureD
      intro: same_structure_trans [OF _ same_structure_toggle] same_structure_trans)


lemma querySelector_id_close_others [simp]:
  "querySelector_id (fst (close_others t tg ns (doc, tr))) i = querySelector_id doc i"
  by (rule querySelector_id_same [OF close_others_structure])

lemma querySelector_id_toggle [simp]:
  "querySelector_id (classList_toggle n t doc) i = querySelector_id doc i"
  by (rule querySelector_id_same [OF same_structure_toggle])

lemma length_close_others [simp]:
  "length (fst (close_others t tg ns (doc, tr))) = length doc"
  using close_others_structure [of doc t tg ns tr] by (simp add: same_structure_def)

lemma dropdown_click_resolved:
  assumes c: "aria_controls (doc ! b) = Some c"
    and p: "querySelector_id doc c = Inr (Some p)"
    and i: "querySelector_id doc (replace_first ''items'' ''expand'' c) = Inr (Some i)"
  shows "thrown (dropdown_click g b doc) = None"
    and "classList_contains (dom (dropdown_click g b doc)) m t =
      (if t = items_open_token
       then (if m = p then \<not> classList_contains doc m t
             else classList_contains doc m t \<and> m \<notin> set (allDropdownItems g))
       else if t = expand_open_token
       then (if m = i then \<not> classList_contains doc m t
             else classList_contains doc m t \<and> m \<notin> set (dropdownIcons g))
       else classList_contains doc m t)"
proof -
  have pb: "p < length doc" and ib: "i < length doc"
    using querySelector_id_bound [OF p] querySelector_id_bound [OF i] by simp_all
  show "thrown (dropdown_click g b doc) = None"
    by (simp add: dropdown_click_def Let_def case_prod_beta c p i template_id_def)
  show "classList_contains (dom (dropdown_click g b doc)) m t =
      (if t = items_open_token
       then (if m = p then \<not> classList_contains doc m t
             else classList_contains doc m t \<and> m \<notin> set (allDropdownItems g))
       else if t = expand_open_token
       then (if m = i then \<not> classList_contains doc m t
             else classList_contains doc m t \<and> m \<notin> set (dropdownIcons g))
       else classList_contains doc m t)"
    using pb ib
    by (auto simp: dropdown_click_def Let_def case_prod_beta c p i template_id_def
        contains_classList_toggle close_others_contains tokens_distinct)
qed

lemma dropdown_click_panel_token:
  assumes "querySelector_id doc (template_id (aria_controls (doc ! b))) = Inr tg"
  shows "classList_contains (dom (dropdown_click g b doc)) m items_open_token =
      (if Some m = tg then \<not> classList_contains doc m items_open_token
       else classList_contains doc m items_open_token \<and> m \<notin> set (allDropdownItems g))"
proof (cases tg)
  case None
  then show ?thesis
    using assms
    by (auto simp: dropdown_click_def Let_def case_prod_beta close_others_contains)
next
  case (Some p)
  then have "p < length doc"
    using assms by (auto simp: querySelector_id_def find_Some_iff split: if_splits)
  then show ?thesis
    using assms Some
    by (auto simp: dropdown_click_def Let_def case_prod_beta close_others_contains
        contains_classList_toggle tokens_distinct split: option.splits sum.splits)
qed

lemma dropdown_click_syntax_error:
  assumes "querySelector_id doc (template_id (aria_controls (doc ! b))) = Inl e"
  shows "dropdown_click g b doc = \<lparr>dom = doc, trace = [], thrown = Some e\<rparr>"
  using assms by (simp add: dropdown_click_def Let_def)

lemma dropdown_click_other_token:
  assumes "t \<noteq> items_open_token" "t \<noteq> expand_open_token"
  shows "classList_contains (dom (dropdown_click g b doc)) m t = classList_contains doc m t"
  using assms
  by (auto simp: dropdown_click_def Let_def case_prod_beta close_others_contains
      contains_classList_toggle split: option.splits sum.splits)


section \<open>Mutual exclusion of the panels\<close>

lemma distinct_querySelectorAll_class: "distinct (querySelectorAll_class doc c)"
  by (simp add: querySelectorAll_class_def)

lemma length_filter_le_one:
  assumes "distinct xs" and "\<And>x. x \<in> set xs \<Longrightarrow> P x \<Longrightarrow> Some x = tg"
  shows "length (filter P xs) \<le> 1"
proof -
  have "set (filter P xs) \<subseteq> set_option tg"
    using assms(2) by auto
  then have "card (set (filter P xs)) \<le> card (set_option tg)"
    by (intro card_mono) simp_all
  also have "\<dots> \<le> 1"
    by (cases tg) simp_all
  finally have "card (set (filter P xs)) \<le> 1" .
  moreover have "card (set (filter P xs)) = length (filter P xs)"
    using assms(1) by (intro distinct_card) simp
  ultimately show ?thesis by simp
qed

lemma mutual_exclusion_click:
  assumes "distinct (allDropdownItems g)" and "mutual_exclusion g doc"
  shows "mutual_exclusion g (dom (click_trigger g b doc))"
proof (cases "b \<in> set (dropdownButtons g)")
  case False
  then show ?thesis using assms(2) by (simp add: click_trigger_def)
next
  case True
  show ?thesis
  proof (cases "querySelector_id doc (template_id (aria_controls (doc ! b)))")
    case (Inl e)
    then show ?thesis
      using assms(2) True by (simp add: click_trigger_def dropdown_click_syntax_error)
  next
    case (Inr tg)
    have "length (filter (panel_open (dom (dropdown_click g b doc))) (allDropdownItems g)) \<le> 1"
      by (rule length_filter_le_one [OF assms(1), where tg = tg])
        (simp add: panel_open_def dropdown_click_panel_token [OF Inr] split: if_splits)
    then show ?thesis
      using True by (simp add: click_trigger_def mutual_exclusion_def open_panels_def)
  qed
qed

lemma mutual_exclusion_clicks:
  assumes "distinct (allDropdownItems g)"
  shows "mutual_exclusion g doc \<Longrightarrow> mutual_exclusion g (trigger_clicks g bs doc)"
proof (induction bs arbitrary: doc)
  case Nil
  then show ?case by simp
next
  case (Cons b bs)
  then show ?case
    by (simp add: mutual_exclusion_click [OF assms])
qed

text \<open>
  Claim C1. In a group whose panels are all closed when the listeners are bound, after
  every click of a sequence of trigger clicks at most one panel of the group bears the
  open token, provided every trigger's attribute resolves to a panel of the group.
  The state after each click of \<open>bs\<close> is the one after a prefix \<open>take k bs\<close>.
  (The proof uses neither the proviso nor that the clicked nodes are triggers: the
  listener closes every panel but its target before it flips the target.)
\<close>

theorem group_mutual_exclusion:
  assumes "g = initialiseDropdown doc0"
    and "open_panels g doc0 = []"
    and "list_all (\<lambda>b. resolves_in (allDropdownItems g) (panel_of doc0 b)) (dropdownButtons g)"
    and "set bs \<subseteq> set (dropdownButtons g)"
  shows "mutual_exclusion g (trigger_clicks g (take k bs) doc0)"
proof -
  have "distinct (allDropdownItems g)"
    using assms(1) by (simp add: initialiseDropdown_def distinct_querySelectorAll_class)
  moreover have "mutual_exclusion g doc0"
    using assms(2) by (simp add: mutual_exclusion_def)
  ultimately show ?thesis
    by (rule mutual_exclusion_clicks)
qed

theorem group_mutual_exclusion_witness:
  "open_panels group_abc page_abc = []
   \<and> list_all (\<lambda>b. resolves_in (allDropdownItems group_abc) (panel_of page_abc b))
        (dropdownButtons group_abc)
   \<and> set [2, 2, 5, 8] \<subseteq> set (dropdownButtons group_abc)
   \<and> mutual_exclusion group_abc (trigger_clicks group_abc (take 3 [2, 2, 5, 8]) page_abc)
   \<and> open_panels group_abc (trigger_clicks group_abc (take 3 [2, 2, 5, 8]) page_abc) = [7]"
proof -
  have closed: "open_panels group_abc page_abc = []"
    by code_simp
  have contract:
    "list_all (\<lambda>b. resolves_in (allDropdownItems group_abc) (panel_of page_abc b))
       (dropdownButtons group_abc)"
    by code_simp
  have clicks: "set [2, 2, 5, 8] \<subseteq> set (dropdownButtons group_abc)"
    by code_simp
  have after: "open_panels group_abc (trigger_clicks group_abc (take 3 [2, 2, 5, 8]) page_abc) = [7]"
    by code_simp
  show ?thesis
    using closed contract clicks after
      group_mutual_exclusion [OF group_abc_def closed contract clicks, of 3]
    by blast
qed

section \<open>The hamburger toggle: lockstep and double click\<close>

declare css_ident.simps [simp del]

lemma css_ident_site_nav_items [simp]: "css_ident ''site-nav-items''"
  by code_simp

lemma css_ident_hamburger_button [simp]: "css_ident ''hamburger-button''"
  by code_simp

lemma hamburger_click_structure: "same_structure doc (dom (hamburger_click b doc))"
  by (auto simp: hamburger_click_def split: sum.splits option.splits
      intro: same_structure_trans [OF same_structure_toggle same_structure_toggle])

lemma hamburger_click_token:
  "classList_contains (dom (hamburger_click b doc)) m t =
     (case querySelector_id doc ''site-nav-items'' of
        Inr (Some n) \<Rightarrow>
          (if (m = n \<and> t = nav_open_token) \<or> (m = b \<and> t = hamburger_open_token \<and> b < length doc)
           then \<not> classList_contains doc m t else classList_contains doc m t)
      | _ \<Rightarrow> classList_contains doc m t)"
  by (auto simp: hamburger_click_def contains_classList_toggle tokens_distinct
      dest: querySelector_id_bound split: sum.splits option.splits)

lemma nav_open_click:
  "nav_open (dom (hamburger_click b doc)) =
     (case querySelector_id doc ''site-nav-items'' of
        Inr (Some n) \<Rightarrow> \<not> nav_open doc | _ \<Rightarrow> nav_open doc)"
  by (auto simp: nav_open_def hamburger_click_token
      querySelector_id_same [OF hamburger_click_structure]
      split: sum.splits option.splits)

lemma hamburger_icon_open_click:
  "hamburger_icon_open b (dom (hamburger_click b doc)) =
     (case querySelector_id doc ''site-nav-items'' of
        Inr (Some n) \<Rightarrow> (if b < length doc then \<not> hamburger_icon_open b doc else hamburger_icon_open b doc)
      | _ \<Rightarrow> hamburger_icon_open b doc)"
  by (auto simp: hamburger_icon_open_def hamburger_click_token tokens_distinct
      split: sum.splits option.splits)

lemma lockstep_click:
  assumes "b < length doc" and "hamburger_icon_open b doc = nav_open doc"
  shows "hamburger_icon_open b (dom (hamburger_click b doc)) = nav_open (dom (hamburger_click b doc))"
  using assms by (simp add: nav_open_click hamburger_icon_open_click split: sum.splits option.splits)

lemma lockstep_clicks:
  assumes "b < length doc" and "hamburger_icon_open b doc = nav_open doc"
  shows "hamburger_icon_open b (hamburger_clicks b k doc) = nav_open (hamburger_clicks b k doc)"
  using assms
proof (induction k arbitrary: doc)
  case 0
  then show ?case by simp
next
  case (Suc k)
  have "b < length (dom (hamburger_click b doc))"
    using hamburger_click_structure [of doc b] Suc.prems(1) by (simp add: same_structure_def)
  then show ?case
    using Suc.IH lockstep_click [OF Suc.prems] by simp
qed

lemma initialiseHamburger_bound:
  "initialiseHamburger doc = Inr b \<Longrightarrow> b < length doc \<and> elem_id (doc ! b) = Some ''hamburger-button''"
  by (auto simp: initialiseHamburger_def dest: querySelector_id_bound split: sum.splits option.splits)

text \<open>
  Claim C4. Once \<open>initialiseHamburger\<close> has bound the listener to the button \<open>b\<close>,
  and with the panel and the icon both closed at the start, after every number
  \<open>k\<close> of hamburger clicks the button bears \<open>hamburger--open\<close> exactly when the
  panel bears \<open>site-nav__items--open\<close>.
\<close>

theorem hamburger_lockstep:
  assumes "initialiseHamburger doc0 = Inr b"
    and "\<not> nav_open doc0" and "\<not> hamburger_icon_open b doc0"
  shows "hamburger_icon_open b (hamburger_clicks b k doc0) = nav_open (hamburger_clicks b k doc0)"
  using initialiseHamburger_bound [OF assms(1)] assms(2,3)
  by (intro lockstep_clicks) simp_all

theorem hamburger_lockstep_witness:
  "initialiseHamburger page_abc = Inr 0
   \<and> \<not> nav_open page_abc \<and> \<not> hamburger_icon_open 0 page_abc
   \<and> hamburger_icon_open 0 (hamburger_clicks 0 3 page_abc) = nav_open (hamburger_clicks 0 3 page_abc)
   \<and> nav_open (hamburger_clicks 0 3 page_abc)"
proof -
  have init: "initialiseHamburger page_abc = Inr 0" by code_simp
  have nav: "\<not> nav_open page_abc" by code_simp
  have icon: "\<not> hamburger_icon_open 0 page_abc" by code_simp
  have after: "nav_open (hamburger_clicks 0 3 page_abc)" by code_simp
  show ?thesis
    using init nav icon after hamburger_lockstep [OF init nav icon, of 3] by blast
qed

text \<open>
  Claim C5. From every document, two hamburger clicks in a row leave the open state
  of the navigation panel and of the hamburger icon as they were before the first.
\<close>

theorem hamburger_two_clicks:
  "nav_open (hamburger_clicks b 2 doc) = nav_open doc
   \<and> hamburger_icon_open b (hamburger_clicks b 2 doc) = hamburger_icon_open b doc"
proof -
  let ?d = "dom (hamburger_click b doc)"
  have two: "hamburger_clicks b 2 doc = dom (hamburger_click b ?d)"
    by (simp add: numeral_2_eq_2)
  have q: "querySelector_id ?d ''site-nav-items'' = querySelector_id doc ''site-nav-items''"
    by (rule querySelector_id_same [OF hamburger_click_structure])
  have len: "length ?d = length doc"
    using hamburger_click_structure [of doc b] by (simp add: same_structure_def)
  show ?thesis
    unfolding two
    by (simp add: nav_open_click hamburger_icon_open_click q len split: sum.splits option.splits)
qed

theorem hamburger_two_clicks_witness:
  "nav_open (hamburger_clicks 0 2 (hamburger_clicks 0 1 page_abc)) = nav_open (hamburger_clicks 0 1 page_abc)
   \<and> hamburger_icon_open 0 (hamburger_clicks 0 2 (hamburger_clicks 0 1 page_abc))
       = hamburger_icon_open 0 (hamburger_clicks 0 1 page_abc)
   \<and> nav_open (hamburger_clicks 0 1 page_abc)"
proof -
  have "nav_open (hamburger_clicks 0 1 page_abc)" by code_simp
  then show ?thesis
    using hamburger_two_clicks [of 0 "hamburger_clicks 0 1 page_abc"] by blast
qed

section \<open>The hamburger toggle: initialisation\<close>

lemma querySelector_id_None_iff:
  "querySelector_id doc i = Inr None \<longleftrightarrow> css_ident i \<and> \<not> present doc i"
proof -
  have "(\<exists>e \<in> set doc. elem_id e = Some i) \<longleftrightarrow> (\<exists>n < length doc. elem_id (doc ! n) = Some i)"
    by (metis in_set_conv_nth)
  then show ?thesis
    by (auto simp: querySelector_id_def present_def find_None_iff list_ex_iff)
qed

lemma initialiseHamburger_absent:
  "\<not> present doc ''hamburger-button'' \<Longrightarrow> initialiseHamburger doc = Inl TypeError"
  using querySelector_id_None_iff [of doc "''hamburger-button''"]
  by (simp add: initialiseHamburger_def)

lemma initialiseHamburger_present:
  "present doc ''hamburger-button'' \<Longrightarrow> \<exists>b. initialiseHamburger doc = Inr b"
  using querySelector_id_None_iff [of doc "''hamburger-button''"]
  by (auto simp: initialiseHamburger_def querySelector_id_def split: sum.splits option.splits)

lemma hamburger_click_absent:
  "\<not> present doc ''site-nav-items'' \<Longrightarrow>
   hamburger_click b doc = \<lparr>dom = doc, trace = [], thrown = Some TypeError\<rparr>"
  using querySelector_id_None_iff [of doc "''site-nav-items''"]
  by (simp add: hamburger_click_def)

text \<open>
  Claim C8, as the script has it. \<open>initialiseHamburger\<close> looks up the trigger button
  only: without the button it fails where it binds the listener (\<open>TypeError\<close>), and
  with the button it succeeds whether or not the navigation panel exists. The panel is
  looked up by the listener on each click; on a document without the panel the click
  throws \<open>TypeError\<close> before any class list is written.
\<close>

theorem hamburger_initialisation:
  "(\<not> present doc ''hamburger-button'' \<longrightarrow> initialiseHamburger doc = Inl TypeError)
   \<and> (present doc ''hamburger-button'' \<longrightarrow> (\<exists>b. initialiseHamburger doc = Inr b))
   \<and> (\<not> present doc' ''site-nav-items'' \<longrightarrow>
        hamburger_click b doc' = \<lparr>dom = doc', trace = [], thrown = Some TypeError\<rparr>)"
  by (simp add: initialiseHamburger_absent initialiseHamburger_present hamburger_click_absent)

theorem hamburger_initialisation_witness:
  "\<not> present [] ''hamburger-button''
   \<and> initialiseHamburger [] = Inl TypeError
   \<and> present page_no_panel ''hamburger-button''
   \<and> \<not> present page_no_panel ''site-nav-items''
   \<and> (\<exists>b. initialiseHamburger page_no_panel = Inr b)
   \<and> hamburger_click 0 page_no_panel
       = \<lparr>dom = page_no_panel, trace = [], thrown = Some TypeError\<rparr>"
proof -
  have a: "\<not> present [] ''hamburger-button''" by code_simp
  have b: "present page_no_panel ''hamburger-button''" by code_simp
  have c: "\<not> present page_no_panel ''site-nav-items''" by code_simp
  show ?thesis
    using a b c hamburger_initialisation [of "[]" page_no_panel 0]
      hamburger_initialisation [of page_no_panel page_no_panel 0]
    by blast
qed

text \<open>
  The claim as stated, that initialisation fails when the panel is absent, does not
  hold: on a page with the button and no panel the listener is bound (to node 0), and
  it is the click that fails.
\<close>

theorem hamburger_panel_lookup_counterexample:
  "\<not> present page_no_panel ''site-nav-items''
   \<and> initialiseHamburger page_no_panel = Inr 0
   \<and> hamburger_click 0 page_no_panel
       = \<lparr>dom = page_no_panel, trace = [], thrown = Some TypeError\<rparr>"
  by code_simp

section \<open>The two components write different tokens\<close>

lemma nav_open_dropdown_click:
  "nav_open (dom (dropdown_click g b doc)) = nav_open doc"
  by (simp add: nav_open_def querySelector_id_same [OF dropdown_click_structure]
      dropdown_click_other_token tokens_distinct split: sum.splits option.splits)

text \<open>
  Claim C9. A click on a dropdown trigger leaves the open state of the navigation
  panel and of the hamburger icon as it was; a click on the hamburger button leaves
  the open state of every dropdown panel and of every dropdown icon (of every node
  \<open>n\<close>) as it was.
\<close>

theorem disjoint_effects:
  "nav_open (dom (click_trigger g b doc)) = nav_open doc
   \<and> hamburger_icon_open h (dom (click_trigger g b doc)) = hamburger_icon_open h doc
   \<and> panel_open (dom (hamburger_click h doc)) n = panel_open doc n
   \<and> icon_open (dom (hamburger_click h doc)) n = icon_open doc n"
  by (simp add: click_trigger_def nav_open_dropdown_click hamburger_icon_open_def
      dropdown_click_other_token panel_open_def icon_open_def hamburger_click_token
      tokens_distinct split: sum.splits option.splits)

theorem disjoint_effects_witness:
  "nav_open (dom (click_trigger group_abc 2 (hamburger_clicks 0 1 page_abc)))
   \<and> hamburger_icon_open 0 (dom (click_trigger group_abc 2 (hamburger_clicks 0 1 page_abc)))
   \<and> panel_open (dom (hamburger_click 0 (trigger_clicks group_abc [2] page_abc))) 4
   \<and> icon_open (dom (hamburger_click 0 (trigger_clicks group_abc [2] page_abc))) 3"
proof -
  have "nav_open (hamburger_clicks 0 1 page_abc)"
    and "hamburger_icon_open 0 (hamburger_clicks 0 1 page_abc)"
    and "panel_open (trigger_clicks group_abc [2] page_abc) 4"
    and "icon_open (trigger_clicks group_abc [2] page_abc) 3"
    by code_simp+
  then show ?thesis
    using disjoint_effects [of group_abc 2 "hamburger_clicks 0 1 page_abc" 0 4]
      disjoint_effects [of group_abc 2 "trigger_clicks group_abc [2] page_abc" 0 4]
      disjoint_effects [of group_abc 2 "trigger_clicks group_abc [2] page_abc" 0 3]
    by blast
qed

section \<open>One click on a trigger\<close>

lemma panel_of_template:
  "panel_of doc b = Some p \<Longrightarrow>
   \<exists>c. aria_controls (doc ! b) = Some c \<and> querySelector_id doc c = Inr (Some p)
       \<and> querySelector_id doc (template_id (aria_controls (doc ! b))) = Inr (Some p)"
  by (auto simp: panel_of_def template_id_def split: option.splits sum.splits)

lemma icon_of_resolved:
  "icon_of doc b = Some i \<Longrightarrow>
   \<exists>c. aria_controls (doc ! b) = Some c
       \<and> querySelector_id doc (replace_first ''items'' ''expand'' c) = Inr (Some i)"
  by (auto simp: icon_of_def split: option.splits sum.splits)

text \<open>What a click on a trigger does to a closed item whose panel and icon resolve.\<close>

lemma switch_click:
  assumes bj: "bj \<in> set (dropdownButtons g)"
    and pj: "panel_of doc bj = Some pj" and ij: "icon_of doc bj = Some ij"
    and cp: "\<not> panel_open doc pj" and ci: "\<not> icon_open doc ij"
  shows "thrown (click_trigger g bj doc) = None"
    and "panel_open (dom (click_trigger g bj doc)) m =
           (m = pj \<or> (panel_open doc m \<and> m \<notin> set (allDropdownItems g)))"
    and "icon_open (dom (click_trigger g bj doc)) m =
           (m = ij \<or> (icon_open doc m \<and> m \<notin> set (dropdownIcons g)))"
proof -
  obtain c where c: "aria_controls (doc ! bj) = Some c"
    and p: "querySelector_id doc c = Inr (Some pj)"
    using panel_of_template [OF pj] by blast
  have i: "querySelector_id doc (replace_first ''items'' ''expand'' c) = Inr (Some ij)"
    using icon_of_resolved [OF ij] c by simp
  note eff = dropdown_click_resolved [OF c p i, of g]
  show "thrown (click_trigger g bj doc) = None"
    using bj by (simp add: click_trigger_def eff(1))
  show "panel_open (dom (click_trigger g bj doc)) m =
           (m = pj \<or> (panel_open doc m \<and> m \<notin> set (allDropdownItems g)))"
    using bj cp eff(2) [of m items_open_token]
    unfolding click_trigger_def panel_open_def by auto
  show "icon_open (dom (click_trigger g bj doc)) m =
           (m = ij \<or> (icon_open doc m \<and> m \<notin> set (dropdownIcons g)))"
    using bj ci eff(2) [of m expand_open_token]
    unfolding click_trigger_def icon_open_def by (auto simp: tokens_distinct)
qed

text \<open>
  Claim C2. An item is a trigger with its panel and its icon. With item i open (its
  panel \<open>pi\<close> and its icon \<open>ii\<close> bear their open tokens) and item j closed (neither
  its panel \<open>pj\<close> nor its icon \<open>ij\<close> does), a click on the trigger of j, whose
  attribute and icon id resolve, returns normally and leaves exactly item j open: the
  panel and the icon of j are open, the panel and the icon of i are closed, and the
  open panels and the open icons of the group are \<open>pj\<close> and \<open>ij\<close> alone.
\<close>

theorem switch_property:
  assumes "bj \<in> set (dropdownButtons g)"
    and "panel_of doc bj = Some pj" and "icon_of doc bj = Some ij"
    and "pi \<in> set (allDropdownItems g)" and "ii \<in> set (dropdownIcons g)"
    and "pi \<noteq> pj" and "ii \<noteq> ij"
    and "panel_open doc pi" and "icon_open doc ii"
    and "\<not> panel_open doc pj" and "\<not> icon_open doc ij"
  shows "thrown (click_trigger g bj doc) = None
         \<and> panel_open (dom (click_trigger g bj doc)) pj
         \<and> icon_open (dom (click_trigger g bj doc)) ij
         \<and> \<not> panel_open (dom (click_trigger g bj doc)) pi
         \<and> \<not> icon_open (dom (click_trigger g bj doc)) ii
         \<and> open_panels g (dom (click_trigger g bj doc))
             = filter (\<lambda>m. m = pj) (allDropdownItems g)
         \<and> open_icons g (dom (click_trigger g bj doc))
             = filter (\<lambda>m. m = ij) (dropdownIcons g)"
proof -
  note eff = switch_click [OF assms(1,2,3,10,11)]
  have "filter (panel_open (dom (click_trigger g bj doc))) (allDropdownItems g)
      = filter (\<lambda>m. m = pj) (allDropdownItems g)"
    by (intro filter_cong) (auto simp: eff(2))
  moreover have "filter (icon_open (dom (click_trigger g bj doc))) (dropdownIcons g)
      = filter (\<lambda>m. m = ij) (dropdownIcons g)"
    by (intro filter_cong) (auto simp: eff(3))
  ultimately show ?thesis
    using assms(4-7) by (simp add: eff open_panels_def open_icons_def)
qed

theorem switch_property_witness:
  "5 \<in> set (dropdownButtons group_abc)
   \<and> panel_of page_a_open 5 = Some 7 \<and> icon_of page_a_open 5 = Some 6
   \<and> panel_open page_a_open 4 \<and> icon_open page_a_open 3
   \<and> \<not> panel_open page_a_open 7 \<and> \<not> icon_open page_a_open 6
   \<and> thrown (click_trigger group_abc 5 page_a_open) = None
   \<and> panel_open (dom (click_trigger group_abc 5 page_a_open)) 7
   \<and> icon_open (dom (click_trigger group_abc 5 page_a_open)) 6
   \<and> \<not> panel_open (dom (click_trigger group_abc 5 page_a_open)) 4
   \<and> \<not> icon_open (dom (click_trigger group_abc 5 page_a_open)) 3
   \<and> open_panels group_abc (dom (click_trigger group_abc 5 page_a_open)) = [7]
   \<and> open_icons group_abc (dom (click_trigger group_abc 5 page_a_open)) = [6]"
proof -
  have b: "5 \<in> set (dropdownButtons group_abc)" by code_simp
  have p: "panel_of page_a_open 5 = Some 7" by code_simp
  have i: "icon_of page_a_open 5 = Some 6" by code_simp
  have pi: "4 \<in> set (allDropdownItems group_abc)" by code_simp
  have ii: "3 \<in> set (dropdownIcons group_abc)" by code_simp
  have np: "(4::nat) \<noteq> 7" and ni: "(3::nat) \<noteq> 6" by simp_all
  have po: "panel_open page_a_open 4" by code_simp
  have io: "icon_open page_a_open 3" by code_simp
  have pc: "\<not> panel_open page_a_open 7" by code_simp
  have ic: "\<not> icon_open page_a_open 6" by code_simp
  have fp: "filter (\<lambda>m. m = 7) (allDropdownItems group_abc) = [7]" by code_simp
  have fi: "filter (\<lambda>m. m = 6) (dropdownIcons group_abc) = [6]" by code_simp
  show ?thesis
    using b p i po io pc ic fp fi switch_property [OF b p i pi ii np ni po io pc ic]
    by simp
qed

text \<open>One click on the trigger of A, from everything closed, opens item A.\<close>

lemma page_a_open_reached: "trigger_clicks group_abc [2] page_abc = page_a_open"
  by code_simp

lemma accordion_close_click:
  assumes "b \<in> set (dropdownButtons g)"
    and "panel_of doc b = Some p" and "icon_of doc b = Some i"
    and "panel_open doc p" and "icon_open doc i"
  shows "thrown (click_trigger g b doc) = None
         \<and> open_panels g (dom (click_trigger g b doc)) = []
         \<and> open_icons g (dom (click_trigger g b doc)) = []
         \<and> \<not> panel_open (dom (click_trigger g b doc)) p
         \<and> \<not> icon_open (dom (click_trigger g b doc)) i"
proof -
  obtain c where c: "aria_controls (doc ! b) = Some c"
    and p: "querySelector_id doc c = Inr (Some p)"
    using panel_of_template [OF assms(2)] by blast
  have i: "querySelector_id doc (replace_first ''items'' ''expand'' c) = Inr (Some i)"
    using icon_of_resolved [OF assms(3)] c by simp
  note eff = dropdown_click_resolved [OF c p i, of g]
  have "filter (panel_open (dom (dropdown_click g b doc))) (allDropdownItems g) = []"
    using assms(4) by (auto simp: filter_empty_conv panel_open_def eff(2))
  moreover have "filter (icon_open (dom (dropdown_click g b doc))) (dropdownIcons g) = []"
    using assms(5) by (auto simp: filter_empty_conv icon_open_def eff(2) tokens_distinct)
  ultimately show ?thesis
    using assms(1,4,5)
    by (simp add: click_trigger_def open_panels_def open_icons_def eff(1)
        panel_open_def icon_open_def eff(2) tokens_distinct)
qed

text \<open>
  Claim C3. In a state satisfying the mutual-exclusion invariant in which an item is
  open (its panel \<open>p\<close> and its icon \<open>i\<close> bear their open tokens), a click on the
  item's own trigger, whose attribute and icon id resolve, returns normally and leaves
  no panel and no icon of the group open; the panel and the icon of the item end
  closed. (The invariant itself is not used in the proof.)
\<close>

theorem accordion_close:
  assumes "b \<in> set (dropdownButtons g)"
    and "panel_of doc b = Some p" and "icon_of doc b = Some i"
    and "mutual_exclusion g doc"
    and "panel_open doc p" and "icon_open doc i"
  shows "thrown (click_trigger g b doc) = None
         \<and> open_panels g (dom (click_trigger g b doc)) = []
         \<and> open_icons g (dom (click_trigger g b doc)) = []
         \<and> \<not> panel_open (dom (click_trigger g b doc)) p
         \<and> \<not> icon_open (dom (click_trigger g b doc)) i"
  using assms(1,2,3,5,6) by (rule accordion_close_click)

theorem accordion_close_witness:
  "2 \<in> set (dropdownButtons group_abc)
   \<and> panel_of page_a_open 2 = Some 4 \<and> icon_of page_a_open 2 = Some 3
   \<and> mutual_exclusion group_abc page_a_open
   \<and> panel_open page_a_open 4 \<and> icon_open page_a_open 3
   \<and> thrown (click_trigger group_abc 2 page_a_open) = None
   \<and> open_panels group_abc (dom (click_trigger group_abc 2 page_a_open)) = []
   \<and> open_icons group_abc (dom (click_trigger group_abc 2 page_a_open)) = []
   \<and> dom (click_trigger group_abc 2 page_a_open) = page_abc"
proof -
  have b: "2 \<in> set (dropdownButtons group_abc)" by code_simp
  have p: "panel_of page_a_open 2 = Some 4" by code_simp
  have i: "icon_of page_a_open 2 = Some 3" by code_simp
  have m: "mutual_exclusion group_abc page_a_open" by code_simp
  have po: "panel_open page_a_open 4" by code_simp
  have io: "icon_open page_a_open 3" by code_simp
  have d: "dom (click_trigger group_abc 2 page_a_open) = page_abc" by code_simp
  show ?thesis
    using b p i m po io d accordion_close [OF b p i m po io] by blast
qed

section \<open>The order of the writes of one click\<close>

lemma nth_classList_remove:
  "classList_remove n t doc ! m =
     (if m = n \<and> n < length doc
      then (doc ! m)\<lparr>classList := removeAll t (classList (doc ! m))\<rparr> else doc ! m)"
proof (cases "n < length doc")
  case True
  then show ?thesis by (cases "m = n") (simp_all add: classList_remove_def)
next
  case False
  then show ?thesis by (simp add: classList_remove_def list_update_beyond)
qed

lemma nth_classList_toggle:
  "classList_toggle n t doc ! m =
     (if m = n \<and> n < length doc
      then (doc ! m)\<lparr>classList := token_toggle t (classList (doc ! m))\<rparr> else doc ! m)"
proof (cases "n < length doc")
  case True
  then show ?thesis by (cases "m = n") (simp_all add: classList_toggle_def)
next
  case False
  then show ?thesis by (simp add: classList_toggle_def list_update_beyond)
qed

lemma removeAll_token_toggle:
  "t \<noteq> t' \<Longrightarrow> removeAll t (token_toggle t' cs) = token_toggle t' (removeAll t cs)"
  by (simp add: token_toggle_def removeAll_filter_not_eq conj_commute)

lemma remove_toggle_commute:
  assumes "t \<noteq> t'"
  shows "classList_remove n t (classList_toggle p t' doc)
       = classList_toggle p t' (classList_remove n t doc)"
  by (rule nth_equalityI)
    (simp_all add: nth_classList_remove nth_classList_toggle removeAll_token_toggle [OF assms])

lemma close_others_toggle_commute:
  assumes "t \<noteq> t'"
  shows "fst (close_others t tg ns (classList_toggle p t' doc, tr))
       = classList_toggle p t' (fst (close_others t tg ns (doc, tr')))"
proof (induction ns arbitrary: doc tr tr')
  case Nil
  show ?case by simp
next
  case (Cons n ns)
  have same: "classList_contains (classList_toggle p t' doc) n t = classList_contains doc n t"
    using assms by (simp add: contains_classList_toggle)
  show ?case
    using Cons.IH [of "classList_remove n t doc"] Cons.IH [of doc]
    by (simp add: same remove_toggle_commute [OF assms])
qed

lemma dropdown_click_trace:
  assumes dp: "distinct (allDropdownItems g)" and di: "distinct (dropdownIcons g)"
    and c: "aria_controls (doc ! b) = Some c"
    and p: "querySelector_id doc c = Inr (Some p)"
    and i: "querySelector_id doc (replace_first ''items'' ''expand'' c) = Inr (Some i)"
  shows "trace (dropdown_click g b doc) =
      map (\<lambda>n. Removed n items_open_token)
        (filter (\<lambda>n. n \<noteq> p \<and> panel_open doc n) (allDropdownItems g))
      @ [Toggled p items_open_token]
      @ map (\<lambda>n. Removed n expand_open_token)
          (filter (\<lambda>n. n \<noteq> i \<and> icon_open doc n) (dropdownIcons g))
      @ [Toggled i expand_open_token]"
proof -
  let ?d1 = "fst (close_others items_open_token (Some p) (allDropdownItems g) (doc, []))"
  let ?d2 = "classList_toggle p items_open_token ?d1"
  have icons: "filter (\<lambda>n. n \<noteq> i \<and> classList_contains ?d2 n expand_open_token)
                 (dropdownIcons g)
             = filter (\<lambda>n. n \<noteq> i \<and> icon_open doc n) (dropdownIcons g)"
    by (intro filter_cong)
      (auto simp: icon_open_def contains_classList_toggle close_others_contains tokens_distinct)
  have panels: "filter (\<lambda>n. n \<noteq> p \<and> classList_contains doc n items_open_token)
                 (allDropdownItems g)
             = filter (\<lambda>n. n \<noteq> p \<and> panel_open doc n) (allDropdownItems g)"
    by (simp add: panel_open_def)
  show ?thesis
    by (simp add: dropdown_click_def Let_def case_prod_beta c p i template_id_def
        close_others_trace [OF dp] close_others_trace [OF di] icons panels)
qed

text \<open>The writes of the order of the specification, for comparison.\<close>

lemma ordered_steps_trace:
  assumes dp: "distinct (allDropdownItems g)" and di: "distinct (dropdownIcons g)"
  shows "trace (ordered_steps g p i doc) =
      map (\<lambda>n. Removed n items_open_token)
        (filter (\<lambda>n. n \<noteq> p \<and> panel_open doc n) (allDropdownItems g))
      @ map (\<lambda>n. Removed n expand_open_token)
          (filter (\<lambda>n. n \<noteq> i \<and> icon_open doc n) (dropdownIcons g))
      @ [Toggled p items_open_token, Toggled i expand_open_token]"
proof -
  let ?d1 = "fst (close_others items_open_token (Some p) (allDropdownItems g) (doc, []))"
  have icons: "filter (\<lambda>n. n \<noteq> i \<and> classList_contains ?d1 n expand_open_token)
                 (dropdownIcons g)
             = filter (\<lambda>n. n \<noteq> i \<and> icon_open doc n) (dropdownIcons g)"
    by (intro filter_cong)
      (auto simp: icon_open_def close_others_contains tokens_distinct)
  show ?thesis
    by (simp add: ordered_steps_def case_prod_beta close_others_trace [OF dp]
        close_others_trace [OF di] icons panel_open_def)
qed

lemma dropdown_click_dom_ordered:
  assumes c: "aria_controls (doc ! b) = Some c"
    and p: "querySelector_id doc c = Inr (Some p)"
    and i: "querySelector_id doc (replace_first ''items'' ''expand'' c) = Inr (Some i)"
  shows "dom (dropdown_click g b doc) = dom (ordered_steps g p i doc)"
proof -
  let ?s1 = "close_others items_open_token (Some p) (allDropdownItems g) (doc, [])"
  have "fst (close_others expand_open_token (Some i) (dropdownIcons g)
               (classList_toggle p items_open_token (fst ?s1),
                snd ?s1 @ [Toggled p items_open_token]))
      = classList_toggle p items_open_token
          (fst (close_others expand_open_token (Some i) (dropdownIcons g) (fst ?s1, snd ?s1)))"
    by (rule close_others_toggle_commute) (simp add: tokens_distinct)
  then show ?thesis
    by (simp add: dropdown_click_def ordered_steps_def Let_def case_prod_beta c p i
        template_id_def)
qed

text \<open>
  Claim C6, as the script has it. On a click whose panel \<open>p\<close> and icon \<open>i\<close> resolve,
  the listener writes in this order: it closes every other open panel of the group,
  flips \<open>p\<close>, closes every other open icon of the group, flips \<open>i\<close>. Each target is
  flipped after its own siblings are closed, and the panel is flipped before the
  icons are closed. The document the click leaves is the one the order of the
  specification (close panels, close icons, flip \<open>p\<close>, flip \<open>i\<close>) leaves.
\<close>

theorem click_order:
  assumes "distinct (allDropdownItems g)" and "distinct (dropdownIcons g)"
    and "panel_of doc b = Some p" and "icon_of doc b = Some i"
  shows "trace (dropdown_click g b doc) =
      map (\<lambda>n. Removed n items_open_token)
        (filter (\<lambda>n. n \<noteq> p \<and> panel_open doc n) (allDropdownItems g))
      @ [Toggled p items_open_token]
      @ map (\<lambda>n. Removed n expand_open_token)
          (filter (\<lambda>n. n \<noteq> i \<and> icon_open doc n) (dropdownIcons g))
      @ [Toggled i expand_open_token]
    \<and> dom (dropdown_click g b doc) = dom (ordered_steps g p i doc)"
proof -
  obtain c where c: "aria_controls (doc ! b) = Some c"
    and p: "querySelector_id doc c = Inr (Some p)"
    using panel_of_template [OF assms(3)] by blast
  have i: "querySelector_id doc (replace_first ''items'' ''expand'' c) = Inr (Some i)"
    using icon_of_resolved [OF assms(4)] c by simp
  show ?thesis
    using dropdown_click_trace [OF assms(1,2) c p i] dropdown_click_dom_ordered [OF c p i]
    by simp
qed

theorem click_order_witness:
  "distinct (allDropdownItems group_abc) \<and> distinct (dropdownIcons group_abc)
   \<and> panel_of page_a_open 5 = Some 7 \<and> icon_of page_a_open 5 = Some 6
   \<and> trace (dropdown_click group_abc 5 page_a_open)
       = [Removed 4 items_open_token, Toggled 7 items_open_token,
          Removed 3 expand_open_token, Toggled 6 expand_open_token]
   \<and> dom (dropdown_click group_abc 5 page_a_open) = dom (ordered_steps group_abc 7 6 page_a_open)"
proof -
  have dp: "distinct (allDropdownItems group_abc)" by code_simp
  have di: "distinct (dropdownIcons group_abc)" by code_simp
  have p: "panel_of page_a_open 5 = Some 7" by code_simp
  have i: "icon_of page_a_open 5 = Some 6" by code_simp
  have fp: "filter (\<lambda>n. n \<noteq> 7 \<and> panel_open page_a_open n) (allDropdownItems group_abc) = [4]"
    by code_simp
  have fi: "filter (\<lambda>n. n \<noteq> 6 \<and> icon_open page_a_open n) (dropdownIcons group_abc) = [3]"
    by code_simp
  show ?thesis
    using dp di p i click_order [OF dp di p i] by (simp add: fp fi)
qed

text \<open>
  The claim as stated, that all closing of siblings is done before either flip, does
  not hold: with item A open, a click on the trigger of B flips the panel of B (node
  7) before it closes the icon of A (node 3).
\<close>

theorem click_order_counterexample:
  "panel_of page_a_open 5 = Some 7 \<and> icon_of page_a_open 5 = Some 6
   \<and> trace (dropdown_click group_abc 5 page_a_open)
       = [Removed 4 items_open_token, Toggled 7 items_open_token,
          Removed 3 expand_open_token, Toggled 6 expand_open_token]
   \<and> trace (ordered_steps group_abc 7 6 page_a_open)
       = [Removed 4 items_open_token, Removed 3 expand_open_token,
          Toggled 7 items_open_token, Toggled 6 expand_open_token]
   \<and> trace (dropdown_click group_abc 5 page_a_open)
       \<noteq> trace (ordered_steps group_abc 7 6 page_a_open)"
  by code_simp

section \<open>The icon of a trigger\<close>

lemma replace_first_occurrence:
  "s = pre @ pat @ post \<Longrightarrow>
   \<exists>k \<le> length pre. take (length pat) (drop k s) = pat
     \<and> replace_first pat rep s = take k s @ rep @ drop (k + length pat) s"
proof (induction pre arbitrary: s)
  case Nil
  then have t: "take (length pat) s = pat" and d: "drop (length pat) s = post"
    by simp_all
  have "replace_first pat rep s = rep @ drop (length pat) s"
    using t by (cases s) auto
  then show ?case
    using t by (intro exI [of _ 0]) simp
next
  case (Cons a pre)
  then have s: "s = a # (pre @ pat @ post)" by simp
  show ?case
  proof (cases "take (length pat) s = pat")
    case True
    then show ?thesis using s by (intro exI [of _ 0]) auto
  next
    case False
    obtain k where k: "k \<le> length pre" "take (length pat) (drop k (pre @ pat @ post)) = pat"
      "replace_first pat rep (pre @ pat @ post)
         = take k (pre @ pat @ post) @ rep @ drop (k + length pat) (pre @ pat @ post)"
      using Cons.IH [OF refl] by blast
    show ?thesis
      using False k s by (intro exI [of _ "Suc k"]) auto
  qed
qed

text \<open>Without an occurrence of the pattern the string is returned as it is.\<close>

lemma replace_first_absent:
  "(\<And>k. k \<le> length s \<Longrightarrow> take (length pat) (drop k s) \<noteq> pat) \<Longrightarrow> replace_first pat rep s = s"
proof (induction s)
  case Nil
  then show ?case using Nil [of 0] by auto
next
  case (Cons a s)
  have "take (length pat) (a # s) \<noteq> pat" using Cons.prems [of 0] by simp
  moreover have "replace_first pat rep s = s"
  proof (rule Cons.IH)
    fix k assume "k \<le> length s"
    then show "take (length pat) (drop k s) \<noteq> pat"
      using Cons.prems [of "Suc k"] by simp
  qed
  ultimately show ?case by simp
qed

lemma naming_convention_replace_first:
  assumes "c = pre @ ''items'' @ post"
  shows "naming_convention c (replace_first ''items'' ''expand'' c)"
proof -
  have len: "length ''items'' = 5" by simp
  have "\<exists>k \<le> length pre. take 5 (drop k c) = ''items''
     \<and> replace_first ''items'' ''expand'' c = take k c @ ''expand'' @ drop (k + 5) c"
    using replace_first_occurrence [OF assms, of "''expand''"] by (simp only: len)
  then obtain k where "k \<le> length pre" "take 5 (drop k c) = ''items''"
    "replace_first ''items'' ''expand'' c = take k c @ ''expand'' @ drop (k + 5) c"
    by blast
  moreover have "length pre \<le> length c"
    unfolding assms by simp
  then have "k < Suc (length c)"
    using \<open>k \<le> length pre\<close> by linarith
  then have "k \<in> set [0..<Suc (length c)]"
    by (simp only: set_upt atLeastLessThan_iff) simp
  ultimately show ?thesis
    unfolding naming_convention_def list_ex_iff by blast
qed

text \<open>
  Claim C7. For a clicked trigger whose attribute value \<open>c\<close> resolves to a panel, the
  icon the listener works on is the element found under the id obtained from \<open>c\<close> by
  replacing \<open>items\<close> with \<open>expand\<close>: the click returns normally exactly when that id
  names an element, and then this element \<open>i\<close> bears that id, the last write of the click
  is the flip of its open token, and its open state is flipped. Whenever \<open>c\<close> contains
  \<open>items\<close>, the id looked up is the one the naming convention gives for \<open>c\<close>.
\<close>

theorem icon_resolution:
  assumes "aria_controls (doc ! b) = Some c" and "querySelector_id doc c = Inr (Some p)"
  shows "(thrown (dropdown_click g b doc) = None
            \<longleftrightarrow> (\<exists>i. querySelector_id doc (replace_first ''items'' ''expand'' c) = Inr (Some i)))
       \<and> (querySelector_id doc (replace_first ''items'' ''expand'' c) = Inr (Some i) \<longrightarrow>
            elem_id (doc ! i) = Some (replace_first ''items'' ''expand'' c)
            \<and> last (trace (dropdown_click g b doc)) = Toggled i expand_open_token
            \<and> icon_open (dom (dropdown_click g b doc)) i = (\<not> icon_open doc i))
       \<and> (c = pre @ ''items'' @ post \<longrightarrow>
            naming_convention c (replace_first ''items'' ''expand'' c))"
proof -
  let ?r = "replace_first ''items'' ''expand'' c"
  have a: "thrown (dropdown_click g b doc) = None \<longleftrightarrow> (\<exists>i. querySelector_id doc ?r = Inr (Some i))"
    by (auto simp: dropdown_click_def Let_def case_prod_beta assms template_id_def
        split: sum.splits option.splits)
  have b: "elem_id (doc ! i) = Some ?r
         \<and> last (trace (dropdown_click g b doc)) = Toggled i expand_open_token
         \<and> icon_open (dom (dropdown_click g b doc)) i = (\<not> icon_open doc i)"
    if i: "querySelector_id doc ?r = Inr (Some i)"
  proof -
    have "last (trace (dropdown_click g b doc)) = Toggled i expand_open_token"
      by (simp add: dropdown_click_def Let_def case_prod_beta assms i template_id_def)
    then show ?thesis
      using querySelector_id_bound [OF i] dropdown_click_resolved(2) [OF assms i, of g i expand_open_token]
      by (simp add: icon_open_def tokens_distinct)
  qed
  show ?thesis
    using a b naming_convention_replace_first by blast
qed

theorem icon_resolution_witness:
  "aria_controls (page_abc ! 5) = Some ''b-items''
   \<and> querySelector_id page_abc ''b-items'' = Inr (Some 7)
   \<and> replace_first ''items'' ''expand'' ''b-items'' = ''b-expand''
   \<and> querySelector_id page_abc ''b-expand'' = Inr (Some 6)
   \<and> thrown (dropdown_click group_abc 5 page_abc) = None
   \<and> elem_id (page_abc ! 6) = Some ''b-expand''
   \<and> last (trace (dropdown_click group_abc 5 page_abc)) = Toggled 6 expand_open_token
   \<and> icon_open (dom (dropdown_click group_abc 5 page_abc)) 6
   \<and> naming_convention ''b-items'' ''b-expand''"
proof -
  have c: "aria_controls (page_abc ! 5) = Some ''b-items''" by code_simp
  have p: "querySelector_id page_abc ''b-items'' = Inr (Some 7)" by code_simp
  have r: "replace_first ''items'' ''expand'' ''b-items'' = ''b-expand''" by code_simp
  have i: "querySelector_id page_abc ''b-expand'' = Inr (Some 6)" by code_simp
  have cl: "\<not> icon_open page_abc 6" by code_simp
  have s: "''b-items'' = ''b-'' @ ''items'' @ ''''" by simp
  show ?thesis
    using c p r i cl s icon_resolution [OF c p, of group_abc 6 "''b-''" "''''"]
    by (simp only: r) blast
qed

section \<open>Icons follow their panels\<close>

lemma panel_of_same:
  assumes "same_structure doc0 doc"
  shows "panel_of doc b = panel_of doc0 b"
proof -
  have "aria_controls (doc ! b) = aria_controls (doc0 ! b)"
    using assms by (simp add: same_structure_def)
  then show ?thesis
    by (simp add: panel_of_def querySelector_id_same [OF assms] cong: option.case_cong)
qed

lemma icon_of_same:
  assumes "same_structure doc0 doc"
  shows "icon_of doc b = icon_of doc0 b"
proof -
  have "aria_controls (doc ! b) = aria_controls (doc0 ! b)"
    using assms by (simp add: same_structure_def)
  then show ?thesis
    by (simp add: icon_of_def querySelector_id_same [OF assms] cong: option.case_cong)
qed

lemma click_trigger_structure: "same_structure doc (dom (click_trigger g b doc))"
  by (simp add: click_trigger_def dropdown_click_structure)

lemma resolves_inD: "resolves_in ns r \<Longrightarrow> \<exists>n. r = Some n \<and> n \<in> set ns"
  by (cases r) (simp_all add: resolves_in_def)

lemma icon_panel_click:
  assumes contract: "dom_contract g doc0" and ss: "same_structure doc0 doc"
    and inv: "\<And>b p i. b \<in> set (dropdownButtons g) \<Longrightarrow> panel_of doc0 b = Some p \<Longrightarrow>
                 icon_of doc0 b = Some i \<Longrightarrow> icon_open doc i = panel_open doc p"
    and b: "b \<in> set (dropdownButtons g)" and p: "panel_of doc0 b = Some p"
    and i: "icon_of doc0 b = Some i"
  shows "icon_open (dom (click_trigger g b' doc)) i = panel_open (dom (click_trigger g b' doc)) p"
proof (cases "b' \<in> set (dropdownButtons g)")
  case False
  then show ?thesis using inv [OF b p i] by (simp add: click_trigger_def)
next
  case True
  have all: "\<And>x. x \<in> set (dropdownButtons g) \<Longrightarrow>
      resolves_in (allDropdownItems g) (panel_of doc0 x) \<and> resolves_in (dropdownIcons g) (icon_of doc0 x)"
    using contract by (simp add: dom_contract_def list_all_iff)
  have injp: "inj_on (panel_of doc0) (set (dropdownButtons g))"
    and inji: "inj_on (icon_of doc0) (set (dropdownButtons g))"
    using contract by (simp_all add: dom_contract_def distinct_map)
  obtain p' i' where p': "panel_of doc0 b' = Some p'" and i': "icon_of doc0 b' = Some i'"
    using all [OF True] by (blast dest: resolves_inD)
  have pin: "p \<in> set (allDropdownItems g)" and iin: "i \<in> set (dropdownIcons g)"
    using all [OF b] p i by (auto dest: resolves_inD)
  have "panel_of doc b' = Some p'" and id: "icon_of doc b' = Some i'"
    using p' i' panel_of_same [OF ss, of b'] icon_of_same [OF ss, of b'] by simp_all
  then obtain c where c: "aria_controls (doc ! b') = Some c"
    and qp: "querySelector_id doc c = Inr (Some p')"
    using panel_of_template [of doc b' p'] by blast
  have qi: "querySelector_id doc (replace_first ''items'' ''expand'' c) = Inr (Some i')"
    using icon_of_resolved [OF id] c by simp
  note eff = dropdown_click_resolved(2) [OF c qp qi, of g]
  have pe: "p = p' \<longleftrightarrow> b = b'"
    by (metis injp b True p p' inj_onD option.inject)
  have ie: "i = i' \<longleftrightarrow> b = b'"
    by (metis inji b True i i' inj_onD option.inject)
  have po: "panel_open (dom (click_trigger g b' doc)) p =
      (if b = b' then \<not> panel_open doc p else False)"
    using True pin eff [of p items_open_token]
    unfolding click_trigger_def panel_open_def pe by simp
  have io: "icon_open (dom (click_trigger g b' doc)) i =
      (if b = b' then \<not> icon_open doc i else False)"
    using True iin eff [of i expand_open_token]
    unfolding click_trigger_def icon_open_def ie by (simp add: tokens_distinct)
  show ?thesis
    using inv [OF b p i] by (simp add: po io)
qed

lemma icon_panel_clicks:
  assumes contract: "dom_contract g doc0"
    and b: "b \<in> set (dropdownButtons g)" and p: "panel_of doc0 b = Some p"
    and i: "icon_of doc0 b = Some i"
  shows "same_structure doc0 doc \<Longrightarrow>
    (\<And>b p i. b \<in> set (dropdownButtons g) \<Longrightarrow> panel_of doc0 b = Some p \<Longrightarrow>
                 icon_of doc0 b = Some i \<Longrightarrow> icon_open doc i = panel_open doc p) \<Longrightarrow>
    icon_open (trigger_clicks g bs doc) i = panel_open (trigger_clicks g bs doc) p"
proof (induction bs arbitrary: doc)
  case Nil
  show ?case using Nil(2) [OF b p i] by simp
next
  case (Cons b' bs)
  have "same_structure doc0 (dom (click_trigger g b' doc))"
    using same_structure_trans [OF Cons.prems(1) click_trigger_structure] .
  moreover have "icon_open (dom (click_trigger g b' doc)) i' = panel_open (dom (click_trigger g b' doc)) p'"
    if "x \<in> set (dropdownButtons g)" "panel_of doc0 x = Some p'" "icon_of doc0 x = Some i'"
    for x p' i'
    using icon_panel_click [OF contract Cons.prems(1) Cons.prems(2) that] by simp
  ultimately show ?case
    using Cons.IH [of "dom (click_trigger g b' doc)"] by simp
qed

text \<open>
  Claim C10. When the markup contract holds for the group (every trigger resolves to
  a panel of the group and, through the replacement of \<open>items\<close> by \<open>expand\<close>, to an
  icon of the group, different triggers to different panels and icons) and all panels
  and icons are closed when the listeners are bound, then after every sequence of
  trigger clicks the icon of each item is open exactly when its panel is open.
\<close>

theorem icon_panel_lockstep:
  assumes "g = initialiseDropdown doc0" and "dom_contract g doc0"
    and "open_panels g doc0 = []" and "open_icons g doc0 = []"
    and "set bs \<subseteq> set (dropdownButtons g)"
    and "b \<in> set (dropdownButtons g)"
    and "panel_of doc0 b = Some p" and "icon_of doc0 b = Some i"
  shows "icon_open (trigger_clicks g bs doc0) i = panel_open (trigger_clicks g bs doc0) p"
proof (rule icon_panel_clicks [OF assms(2) assms(6-8)])
  show "same_structure doc0 doc0" by simp
next
  fix x p' i'
  assume x: "x \<in> set (dropdownButtons g)" and p': "panel_of doc0 x = Some p'"
    and i': "icon_of doc0 x = Some i'"
  have "resolves_in (allDropdownItems g) (panel_of doc0 x)"
    and "resolves_in (dropdownIcons g) (icon_of doc0 x)"
    using assms(2) x by (simp_all add: dom_contract_def list_all_iff)
  then have "p' \<in> set (allDropdownItems g)" and "i' \<in> set (dropdownIcons g)"
    using p' i' by (simp_all add: resolves_in_def)
  then have "\<not> panel_open doc0 p'" and "\<not> icon_open doc0 i'"
    using assms(3,4) by (auto simp: open_panels_def open_icons_def filter_empty_conv)
  then show "icon_open doc0 i' = panel_open doc0 p'" by simp
qed

theorem icon_panel_lockstep_witness:
  "dom_contract group_abc page_abc
   \<and> open_panels group_abc page_abc = [] \<and> open_icons group_abc page_abc = []
   \<and> set [2, 5, 5, 8] \<subseteq> set (dropdownButtons group_abc)
   \<and> 8 \<in> set (dropdownButtons group_abc)
   \<and> panel_of page_abc 8 = Some 10 \<and> icon_of page_abc 8 = Some 9
   \<and> icon_open (trigger_clicks group_abc [2, 5, 5, 8] page_abc) 9
       = panel_open (trigger_clicks group_abc [2, 5, 5, 8] page_abc) 10
   \<and> panel_open (trigger_clicks group_abc [2, 5, 5, 8] page_abc) 10"
proof -
  have c: "dom_contract group_abc page_abc" by code_simp
  have op: "open_panels group_abc page_abc = []" by code_simp
  have oi: "open_icons group_abc page_abc = []" by code_simp
  have bs: "set [2, 5, 5, 8] \<subseteq> set (dropdownButtons group_abc)" by code_simp
  have b: "8 \<in> set (dropdownButtons group_abc)" by code_simp
  have p: "panel_of page_abc 8 = Some 10" by code_simp
  have i: "icon_of page_abc 8 = Some 9" by code_simp
  have o: "panel_open (trigger_clicks group_abc [2, 5, 5, 8] page_abc) 10" by code_simp
  show ?thesis
    using c op oi bs b p i o icon_panel_lockstep [OF group_abc_def c op oi bs b p i]
    by blast
qed

section \<open>Closing an open item after any clicks\<close>

lemma trigger_clicks_structure: "same_structure doc (trigger_clicks g bs doc)"
proof (induction bs arbitrary: doc)
  case Nil
  show ?case by simp
next
  case (Cons b bs)
  show ?case
    using same_structure_trans [OF click_trigger_structure Cons.IH] by simp
qed

text \<open>
  On every state reached by clicks from a page with everything closed, under the
  markup contract, an open panel has its icon open. There the open panel alone is
  enough for the click on its trigger to leave the group closed.
\<close>

lemma accordion_close_reachable:
  assumes contract: "dom_contract g doc0"
    and closed: "open_panels g doc0 = []" "open_icons g doc0 = []"
    and b: "b \<in> set (dropdownButtons g)"
    and p: "panel_of doc0 b = Some p" and i: "icon_of doc0 b = Some i"
    and opn: "panel_open (trigger_clicks g bs doc0) p"
  shows "thrown (click_trigger g b (trigger_clicks g bs doc0)) = None
         \<and> open_panels g (dom (click_trigger g b (trigger_clicks g bs doc0))) = []
         \<and> open_icons g (dom (click_trigger g b (trigger_clicks g bs doc0))) = []"
proof -
  let ?doc = "trigger_clicks g bs doc0"
  have start: "icon_open doc0 i' = panel_open doc0 p'"
    if x: "x \<in> set (dropdownButtons g)" and p': "panel_of doc0 x = Some p'"
      and i': "icon_of doc0 x = Some i'" for x p' i'
  proof -
    have "resolves_in (allDropdownItems g) (panel_of doc0 x)"
      and "resolves_in (dropdownIcons g) (icon_of doc0 x)"
      using contract x by (simp_all add: dom_contract_def list_all_iff)
    then have "p' \<in> set (allDropdownItems g)" and "i' \<in> set (dropdownIcons g)"
      using p' i' by (simp_all add: resolves_in_def)
    then have "\<not> panel_open doc0 p'" and "\<not> icon_open doc0 i'"
      using closed by (auto simp: open_panels_def open_icons_def filter_empty_conv)
    then show ?thesis by simp
  qed
  have "icon_open ?doc i = panel_open ?doc p"
    by (rule icon_panel_clicks [OF contract b p i same_structure_refl start])
  then have io: "icon_open ?doc i" using opn by simp
  have ss: "same_structure doc0 ?doc" by (rule trigger_clicks_structure)
  have p': "panel_of ?doc b = Some p" and i': "icon_of ?doc b = Some i"
    using p i panel_of_same [OF ss, of b] icon_of_same [OF ss, of b] by simp_all
  show ?thesis
    using accordion_close_click [OF b p' i' opn io] by simp
qed

end
